theory Spec2Isabelle
  imports Main
begin

section \<open>Request state of the code-navigation service (request\_state.go)\<close>

text \<open>
  A shallow embedding of \<^verbatim>\<open>internal/codeintel/codenav/request_state.go\<close>.
  Every method with a pointer receiver takes the receiver's state and returns the
  state it leaves. Go's \<^verbatim>\<open>int\<close> is modelled by \<^typ>\<open>int\<close>: the file compares,
  copies and stores integers and never computes with them, so no wrap-around arises.
\<close>

subsection \<open>Outcomes that are not return values\<close>

text \<open>
  A call that does not return normally: a run-time panic (nil dereference, index out of
  range, unlocking a mutex that is not locked), or a goroutine that waits for a lock
  somebody else holds.
\<close>

datatype fault = Panic | Blocked

text \<open>Go \<^verbatim>\<open>error\<close> values. The only one this file can meet is the one of NewHunkCache.\<close>

datatype error = ConfigurationError

subsection \<open>sync.RWMutex\<close>

text \<open>
  The state of a reader/writer mutex of Go's standard library: whether a writer holds it
  and how many readers hold it. The zero value is an unlocked mutex. Lock waits while
  anybody holds the mutex, RLock waits while a writer holds it; Unlock and RUnlock of a
  mutex that is not held that way are fatal. A call made while the mutex is held by
  somebody else has the outcome \<^term>\<open>Blocked\<close>: it does not return in that state.
  Writers that are themselves waiting are not part of the state.
\<close>

record RWMutex =
  writer :: bool
  readers :: nat

definition RWMutex_zero :: RWMutex where
  "RWMutex_zero = \<lparr> writer = False, readers = 0 \<rparr>"

definition Lock :: "RWMutex \<Rightarrow> fault + RWMutex" where
  "Lock m = (if writer m \<or> 0 < readers m then Inl Blocked else Inr (m\<lparr>writer := True\<rparr>))"

definition Unlock :: "RWMutex \<Rightarrow> fault + RWMutex" where
  "Unlock m = (if writer m then Inr (m\<lparr>writer := False\<rparr>) else Inl Panic)"

definition RLock :: "RWMutex \<Rightarrow> fault + RWMutex" where
  "RLock m = (if writer m then Inl Blocked else Inr (m\<lparr>readers := Suc (readers m)\<rparr>))"

definition RUnlock :: "RWMutex \<Rightarrow> fault + RWMutex" where
  "RUnlock m = (if readers m = 0 then Inl Panic else Inr (m\<lparr>readers := readers m - 1\<rparr>))"

subsection \<open>The two upload representations\<close>

text \<open>
  Modelled from the spec: the declarations of dbstore.Dump and shared.Dump are not in
  this file. The spec lists the attributes of an upload (identifier, commit, root,
  visibility flag, the lifecycle timestamps, processing state, retry counters, repository
  identifier and name, indexer name and version, the optional link to the index job), and
  AddUpload names the seventeen fields it reads from the one type and writes to the
  other. Both records have exactly these fields, under the names of the source. A
  pointer field is an option (nil is \<^term>\<open>None\<close>), a time.Time is an integer whose
  zero value is 0.
\<close>

type_synonym Time = int

record dbstore_Dump =
  ID :: int
  Commit :: string
  Root :: string
  VisibleAtTip :: bool
  UploadedAt :: Time
  State :: string
  FailureMessage :: "string option"
  StartedAt :: "Time option"
  FinishedAt :: "Time option"
  ProcessAfter :: "Time option"
  NumResets :: int
  NumFailures :: int
  RepositoryID :: int
  RepositoryName :: string
  Indexer :: string
  IndexerVersion :: string
  AssociatedIndexID :: "int option"

record shared_Dump =
  ID :: int
  Commit :: string
  Root :: string
  VisibleAtTip :: bool
  UploadedAt :: Time
  State :: string
  FailureMessage :: "string option"
  StartedAt :: "Time option"
  FinishedAt :: "Time option"
  ProcessAfter :: "Time option"
  NumResets :: int
  NumFailures :: int
  RepositoryID :: int
  RepositoryName :: string
  Indexer :: string
  IndexerVersion :: string
  AssociatedIndexID :: "int option"

text \<open>The zero values \<^verbatim>\<open>dbstore.Dump{}\<close> and \<^verbatim>\<open>shared.Dump{}\<close>.\<close>

definition dbstore_Dump_zero :: dbstore_Dump where
  "dbstore_Dump_zero =
     \<lparr> dbstore_Dump.ID = 0, Commit = [], Root = [], VisibleAtTip = False, UploadedAt = 0,
       State = [], FailureMessage = None, StartedAt = None, FinishedAt = None,
       ProcessAfter = None, NumResets = 0, NumFailures = 0, RepositoryID = 0,
       RepositoryName = [], Indexer = [], IndexerVersion = [], AssociatedIndexID = None \<rparr>"

definition shared_Dump_zero :: shared_Dump where
  "shared_Dump_zero =
     \<lparr> shared_Dump.ID = 0, Commit = [], Root = [], VisibleAtTip = False, UploadedAt = 0,
       State = [], FailureMessage = None, StartedAt = None, FinishedAt = None,
       ProcessAfter = None, NumResets = 0, NumFailures = 0, RepositoryID = 0,
       RepositoryName = [], Indexer = [], IndexerVersion = [], AssociatedIndexID = None \<rparr>"

subsection \<open>External collaborators\<close>

text \<open>
  Modelled from the spec: the clients, the repository and the permission checker are
  declared in other packages. The spec calls them opaque collaborators that this file
  stores or hands on, so each is a handle.
\<close>

datatype SubRepoPermissionChecker = SubRepoPermissionChecker nat
datatype Client = Client nat
datatype GitserverClient = GitserverClient nat
datatype Repo = Repo nat

record requestArgs =
  repo :: Repo
  commit :: string
  path :: string

datatype HunkCache = HunkCache int

text \<open>
  Modelled from the spec: NewHunkCache is called by SetLocalGitTreeTranslator and is not
  defined in this file. The spec says that building the bounded hunk cache fails with a
  configuration error if the capacity is invalid (non-positive); otherwise it yields a
  cache of that capacity.
\<close>

definition NewHunkCache :: "int \<Rightarrow> error + HunkCache" where
  "NewHunkCache size' = (if size' \<le> 0 then Inl ConfigurationError else Inr (HunkCache size'))"

text \<open>
  Modelled from the spec: NewGitTreeTranslator and newCommitCache are not defined in this
  file either. The spec says only what they are built from, so their results are kept as
  the terms of their arguments.
\<close>

datatype GitTreeTranslator = NewGitTreeTranslator Client requestArgs HunkCache

datatype CommitCache = newCommitCache GitserverClient

subsection \<open>UploadsDataLoader\<close>

text \<open>
  The slice \<^verbatim>\<open>uploads\<close> is a list (the nil slice is the empty list), the map
  \<^verbatim>\<open>uploadsByID\<close> a partial function. NewUploadsDataLoader is the only place where
  the file builds a loader, so the map is never nil.
\<close>

record UploadsDataLoader =
  uploads :: "shared_Dump list"
  uploadsByID :: "int \<rightharpoonup> shared_Dump"
  cacheMutex :: RWMutex

definition NewUploadsDataLoader :: UploadsDataLoader where
  "NewUploadsDataLoader =
     \<lparr> uploads = [], uploadsByID = Map.empty, cacheMutex = RWMutex_zero \<rparr>"

text \<open>
  GetUploadFromCacheMap: the two-valued map read of Go gives the zero value and false for
  a key that is absent. The deferred RUnlock runs after the result is computed.
\<close>

definition GetUploadFromCacheMap ::
  "UploadsDataLoader \<Rightarrow> int \<Rightarrow> fault + (UploadsDataLoader \<times> shared_Dump \<times> bool)" where
  "GetUploadFromCacheMap l id' =
     (case RLock (cacheMutex l) of
        Inl f \<Rightarrow> Inl f
      | Inr m \<Rightarrow>
          (let l1 = l\<lparr>cacheMutex := m\<rparr>;
               res = (case uploadsByID l1 id' of
                        None \<Rightarrow> (shared_Dump_zero, False)
                      | Some upload \<Rightarrow> (upload, True))
           in case RUnlock (cacheMutex l1) of
                Inl f \<Rightarrow> Inl f
              | Inr m' \<Rightarrow> Inr (l1\<lparr>cacheMutex := m'\<rparr>, res)))"

text \<open>The loop of SetUploadInCacheMap: one map store per element, in slice order.\<close>

fun SetUploadInCacheMap_loop :: "UploadsDataLoader \<Rightarrow> shared_Dump list \<Rightarrow> UploadsDataLoader" where
  "SetUploadInCacheMap_loop l [] = l"
| "SetUploadInCacheMap_loop l (u # us) =
     SetUploadInCacheMap_loop (l\<lparr>uploadsByID := (uploadsByID l)(shared_Dump.ID u \<mapsto> u)\<rparr>) us"

definition SetUploadInCacheMap ::
  "UploadsDataLoader \<Rightarrow> shared_Dump list \<Rightarrow> fault + UploadsDataLoader" where
  "SetUploadInCacheMap l us =
     (case Lock (cacheMutex l) of
        Inl f \<Rightarrow> Inl f
      | Inr m \<Rightarrow>
          (let l1 = SetUploadInCacheMap_loop (l\<lparr>cacheMutex := m\<rparr>) us
           in case Unlock (cacheMutex l1) of
                Inl f \<Rightarrow> Inl f
              | Inr m' \<Rightarrow> Inr (l1\<lparr>cacheMutex := m'\<rparr>)))"

text \<open>AddUpload, lines 128 to 146: the struct literal that copies the fields.\<close>

definition AddUpload_dump :: "dbstore_Dump \<Rightarrow> shared_Dump" where
  "AddUpload_dump d =
     \<lparr> shared_Dump.ID = dbstore_Dump.ID d,
       Commit = dbstore_Dump.Commit d,
       Root = dbstore_Dump.Root d,
       VisibleAtTip = dbstore_Dump.VisibleAtTip d,
       UploadedAt = dbstore_Dump.UploadedAt d,
       State = dbstore_Dump.State d,
       FailureMessage = dbstore_Dump.FailureMessage d,
       StartedAt = dbstore_Dump.StartedAt d,
       FinishedAt = dbstore_Dump.FinishedAt d,
       ProcessAfter = dbstore_Dump.ProcessAfter d,
       NumResets = dbstore_Dump.NumResets d,
       NumFailures = dbstore_Dump.NumFailures d,
       RepositoryID = dbstore_Dump.RepositoryID d,
       RepositoryName = dbstore_Dump.RepositoryName d,
       Indexer = dbstore_Dump.Indexer d,
       IndexerVersion = dbstore_Dump.IndexerVersion d,
       AssociatedIndexID = dbstore_Dump.AssociatedIndexID d \<rparr>"

text \<open>AddUpload, line 147: the append to the slice.\<close>

definition AddUpload_append :: "UploadsDataLoader \<Rightarrow> dbstore_Dump \<Rightarrow> UploadsDataLoader" where
  "AddUpload_append l d = l\<lparr>uploads := uploads l @ [AddUpload_dump d]\<rparr>"

text \<open>AddUpload, line 148: the map store.\<close>

definition AddUpload_store :: "UploadsDataLoader \<Rightarrow> dbstore_Dump \<Rightarrow> UploadsDataLoader" where
  "AddUpload_store l d =
     l\<lparr>uploadsByID := (uploadsByID l)(shared_Dump.ID (AddUpload_dump d) \<mapsto> AddUpload_dump d)\<rparr>"

definition AddUpload :: "UploadsDataLoader \<Rightarrow> dbstore_Dump \<Rightarrow> fault + UploadsDataLoader" where
  "AddUpload l d =
     (case Lock (cacheMutex l) of
        Inl f \<Rightarrow> Inl f
      | Inr m \<Rightarrow>
          (let l1 = AddUpload_append (l\<lparr>cacheMutex := m\<rparr>) d;
               l2 = AddUpload_store l1 d
           in case Unlock (cacheMutex l2) of
                Inl f \<Rightarrow> Inl f
              | Inr m' \<Rightarrow> Inr (l2\<lparr>cacheMutex := m'\<rparr>)))"

subsection \<open>RequestState\<close>

text \<open>
  A pointer or interface field is an option; \<^verbatim>\<open>&RequestState{}\<close> has every field at
  its zero value.
\<close>

record RequestState =
  dataLoader :: "UploadsDataLoader option"
  GitTreeTranslator :: "GitTreeTranslator option"
  commitCache :: "CommitCache option"
  maximumIndexesPerMonikerSearch :: int
  authChecker :: "SubRepoPermissionChecker option"

definition RequestState_zero :: RequestState where
  "RequestState_zero =
     \<lparr> dataLoader = None, GitTreeTranslator = None, commitCache = None,
       maximumIndexesPerMonikerSearch = 0, authChecker = None \<rparr>"

text \<open>Indexing a slice as Go does it: out of range is a run-time panic.\<close>

definition slice_index :: "'a list \<Rightarrow> int \<Rightarrow> fault + 'a" where
  "slice_index xs i = (if 0 \<le> i \<and> i < int (length xs) then Inr (xs ! nat i) else Inl Panic)"

definition GetCacheUploads :: "RequestState \<Rightarrow> fault + shared_Dump list" where
  "GetCacheUploads r =
     (case dataLoader r of None \<Rightarrow> Inl Panic | Some l \<Rightarrow> Inr (uploads l))"

definition GetCacheUploadsAtIndex :: "RequestState \<Rightarrow> int \<Rightarrow> fault + shared_Dump" where
  "GetCacheUploadsAtIndex r index =
     (case dataLoader r of
        None \<Rightarrow> Inl Panic
      | Some l \<Rightarrow>
          if index < 0 \<or> index \<ge> int (length (uploads l)) then Inr shared_Dump_zero
          else slice_index (uploads l) index)"

definition SetAuthChecker :: "RequestState \<Rightarrow> SubRepoPermissionChecker option \<Rightarrow> RequestState" where
  "SetAuthChecker r ac = r\<lparr>authChecker := ac\<rparr>"

text \<open>
  SetUploadsDataLoader: the loop calls AddUpload on the loader that line 64 has just
  stored in the state.
\<close>

fun SetUploadsDataLoader_loop ::
  "UploadsDataLoader \<Rightarrow> dbstore_Dump list \<Rightarrow> fault + UploadsDataLoader" where
  "SetUploadsDataLoader_loop l [] = Inr l"
| "SetUploadsDataLoader_loop l (upload # rest) =
     (case AddUpload l upload of
        Inl f \<Rightarrow> Inl f
      | Inr l' \<Rightarrow> SetUploadsDataLoader_loop l' rest)"

definition SetUploadsDataLoader :: "RequestState \<Rightarrow> dbstore_Dump list \<Rightarrow> fault + RequestState" where
  "SetUploadsDataLoader r ds =
     (case SetUploadsDataLoader_loop NewUploadsDataLoader ds of
        Inl f \<Rightarrow> Inl f
      | Inr l \<Rightarrow> Inr (r\<lparr>dataLoader := Some l\<rparr>))"

text \<open>
  SetLocalGitTreeTranslator returns the state it leaves and the error it returns
  (\<^term>\<open>None\<close> for nil). On the error path the state is untouched.
\<close>

definition SetLocalGitTreeTranslator ::
  "RequestState \<Rightarrow> Client \<Rightarrow> Repo \<Rightarrow> string \<Rightarrow> string \<Rightarrow> int \<Rightarrow> RequestState \<times> error option" where
  "SetLocalGitTreeTranslator r client rp cm pth hunkCacheSize =
     (case NewHunkCache hunkCacheSize of
        Inl err \<Rightarrow> (r, Some err)
      | Inr hunkCache \<Rightarrow>
          (let args = \<lparr> repo = rp, commit = cm, path = pth \<rparr>
           in (r\<lparr>GitTreeTranslator := Some (NewGitTreeTranslator client args hunkCache)\<rparr>, None)))"

definition SetLocalCommitCache :: "RequestState \<Rightarrow> GitserverClient \<Rightarrow> RequestState" where
  "SetLocalCommitCache r client = r\<lparr>commitCache := Some (newCommitCache client)\<rparr>"

definition SetMaximumIndexesPerMonikerSearch :: "RequestState \<Rightarrow> int \<Rightarrow> RequestState" where
  "SetMaximumIndexesPerMonikerSearch r maxNumber = r\<lparr>maximumIndexesPerMonikerSearch := maxNumber\<rparr>"

text \<open>
  NewRequestState has one result, the state: line 40 calls SetLocalGitTreeTranslator as a
  statement, so the error it returns is dropped (\<^term>\<open>fst\<close> keeps the state only).
\<close>

definition NewRequestState ::
  "dbstore_Dump list \<Rightarrow> SubRepoPermissionChecker option \<Rightarrow> Client \<Rightarrow> Repo \<Rightarrow> string \<Rightarrow> string \<Rightarrow>
   GitserverClient \<Rightarrow> int \<Rightarrow> int \<Rightarrow> fault + RequestState" where
  "NewRequestState ds ac client rp cm pth gitclient maxIndexes hunkCacheSize =
     (case SetUploadsDataLoader RequestState_zero ds of
        Inl f \<Rightarrow> Inl f
      | Inr r1 \<Rightarrow>
          (let r2 = SetAuthChecker r1 ac;
               r3 = fst (SetLocalGitTreeTranslator r2 client rp cm pth hunkCacheSize);
               r4 = SetLocalCommitCache r3 gitclient;
               r5 = SetMaximumIndexesPerMonikerSearch r4 maxIndexes
           in Inr r5))"

subsection \<open>Notions the properties are stated with\<close>

text \<open>
  The most recently inserted upload with a given identifier: the last element of the
  sequence that carries it, if any.
\<close>

definition lastWithID :: "shared_Dump list \<Rightarrow> int \<rightharpoonup> shared_Dump" where
  "lastWithID us i = find (\<lambda>u. shared_Dump.ID u = i) (rev us)"

text \<open>
  A cached upload carries the attributes of a stored one: each of the seventeen fields of
  the cached record equals the field of that name of the stored record.
\<close>

definition same_upload :: "dbstore_Dump \<Rightarrow> shared_Dump \<Rightarrow> bool" where
  "same_upload d u =
     (shared_Dump.ID u = dbstore_Dump.ID d \<and>
      shared_Dump.Commit u = dbstore_Dump.Commit d \<and>
      shared_Dump.Root u = dbstore_Dump.Root d \<and>
      shared_Dump.VisibleAtTip u = dbstore_Dump.VisibleAtTip d \<and>
      shared_Dump.UploadedAt u = dbstore_Dump.UploadedAt d \<and>
      shared_Dump.State u = dbstore_Dump.State d \<and>
      shared_Dump.FailureMessage u = dbstore_Dump.FailureMessage d \<and>
      shared_Dump.StartedAt u = dbstore_Dump.StartedAt d \<and>
      shared_Dump.FinishedAt u = dbstore_Dump.FinishedAt d \<and>
      shared_Dump.ProcessAfter u = dbstore_Dump.ProcessAfter d \<and>
      shared_Dump.NumResets u = dbstore_Dump.NumResets d \<and>
      shared_Dump.NumFailures u = dbstore_Dump.NumFailures d \<and>
      shared_Dump.RepositoryID u = dbstore_Dump.RepositoryID d \<and>
      shared_Dump.RepositoryName u = dbstore_Dump.RepositoryName d \<and>
      shared_Dump.Indexer u = dbstore_Dump.Indexer d \<and>
      shared_Dump.IndexerVersion u = dbstore_Dump.IndexerVersion d \<and>
      shared_Dump.AssociatedIndexID u = dbstore_Dump.AssociatedIndexID d)"

text \<open>A mutex nobody holds: an operation that locks it goes ahead.\<close>

definition unheld :: "RWMutex \<Rightarrow> bool" where
  "unheld m = (\<not> writer m \<and> readers m = 0)"


text \<open>
  The state in which AddUpload stands between line 147 and line 148: the write lock
  taken, the sequence appended to, the mapping not yet stored to.
\<close>

definition AddUpload_midway :: "UploadsDataLoader \<Rightarrow> dbstore_Dump \<Rightarrow> fault + UploadsDataLoader" where
  "AddUpload_midway l d =
     (case Lock (cacheMutex l) of
        Inl f \<Rightarrow> Inl f
      | Inr m \<Rightarrow> Inr (AddUpload_append (l\<lparr>cacheMutex := m\<rparr>) d))"

text \<open>
  The loader that SetUploadsDataLoader builds from a list of uploads, in closed form
  (\<open>SetUploadsDataLoader_loop_New\<close> proves that it is).
\<close>

definition loaded :: "dbstore_Dump list \<Rightarrow> UploadsDataLoader" where
  "loaded ds =
     \<lparr> uploads = map AddUpload_dump ds,
       uploadsByID = lastWithID (map AddUpload_dump ds),
       cacheMutex = RWMutex_zero \<rparr>"

text \<open>Two uploads with the identifiers 1 and 2, for the examples.\<close>

definition upload1 :: dbstore_Dump where
  "upload1 = dbstore_Dump_zero\<lparr>dbstore_Dump.ID := 1, dbstore_Dump.Commit := ''c1''\<rparr>"

definition upload2 :: dbstore_Dump where
  "upload2 = dbstore_Dump_zero\<lparr>dbstore_Dump.ID := 2, dbstore_Dump.Commit := ''c2''\<rparr>"

section \<open>Properties\<close>

lemma unheld_RWMutex_zero: "unheld RWMutex_zero"
  by (simp add: unheld_def RWMutex_zero_def)

subsection \<open>The mutex, the loops and the most recent upload\<close>

lemma Lock_unheld: "unheld m \<Longrightarrow> Lock m = Inr (m\<lparr>writer := True\<rparr>)"
  by (simp add: Lock_def unheld_def)

lemma Unlock_after_Lock: "unheld m \<Longrightarrow> Unlock (m\<lparr>writer := True\<rparr>) = Inr m"
  by (simp add: Unlock_def unheld_def)

lemma RLock_RUnlock:
  "\<not> writer m \<Longrightarrow>
   RLock m = Inr (m\<lparr>readers := Suc (readers m)\<rparr>) \<and>
   RUnlock (m\<lparr>readers := Suc (readers m)\<rparr>) = Inr m"
  by (simp add: RLock_def RUnlock_def)

lemma lastWithID_Nil: "lastWithID [] = Map.empty"
  by (rule ext) (simp add: lastWithID_def)

lemma lastWithID_snoc: "lastWithID (us @ [u]) = (lastWithID us)(shared_Dump.ID u \<mapsto> u)"
  by (rule ext) (simp add: lastWithID_def)

lemma find_app:
  "find P (xs @ ys) = (case find P xs of None \<Rightarrow> find P ys | Some x \<Rightarrow> Some x)"
  by (induction xs) simp_all

lemma lastWithID_append: "lastWithID (us @ vs) = lastWithID us ++ lastWithID vs"
  by (rule ext) (simp add: lastWithID_def find_app map_add_def split: option.splits)

lemma lastWithID_Cons: "lastWithID (u # us) = [shared_Dump.ID u \<mapsto> u] ++ lastWithID us"
  using lastWithID_append [of "[u]" us]
  by (simp add: lastWithID_snoc [of "[]", simplified] lastWithID_Nil)

lemma map_add_lastWithID_Cons:
  "m ++ lastWithID (u # us) = m(shared_Dump.ID u \<mapsto> u) ++ lastWithID us"
  by (rule ext) (simp add: lastWithID_Cons map_add_def split: option.splits)

lemma lastWithID_None_iff: "(lastWithID us i = None) = (i \<notin> shared_Dump.ID ` set us)"
  by (auto simp: lastWithID_def find_None_iff)

lemma ID_AddUpload_dump: "shared_Dump.ID (AddUpload_dump d) = dbstore_Dump.ID d"
  by (simp add: AddUpload_dump_def)

lemma AddUpload_unheld:
  "unheld (cacheMutex l) \<Longrightarrow>
   AddUpload l d = Inr (l\<lparr>uploads := uploads l @ [AddUpload_dump d],
                          uploadsByID := (uploadsByID l)(dbstore_Dump.ID d \<mapsto> AddUpload_dump d)\<rparr>)"
  by (simp add: AddUpload_def Lock_unheld AddUpload_append_def AddUpload_store_def
      Unlock_after_Lock AddUpload_dump_def)

lemma SetUploadInCacheMap_loop_eq:
  "SetUploadInCacheMap_loop l us = l\<lparr>uploadsByID := uploadsByID l ++ lastWithID us\<rparr>"
  by (induction us arbitrary: l) (simp_all add: lastWithID_Nil map_add_lastWithID_Cons)

lemma SetUploadInCacheMap_unheld:
  "unheld (cacheMutex l) \<Longrightarrow>
   SetUploadInCacheMap l us = Inr (l\<lparr>uploadsByID := uploadsByID l ++ lastWithID us\<rparr>)"
  by (simp add: SetUploadInCacheMap_def Lock_unheld SetUploadInCacheMap_loop_eq Unlock_after_Lock)

lemma GetUploadFromCacheMap_unheld:
  "\<not> writer (cacheMutex l) \<Longrightarrow>
   GetUploadFromCacheMap l i =
     Inr (l, case uploadsByID l i of None \<Rightarrow> (shared_Dump_zero, False) | Some u \<Rightarrow> (u, True))"
  by (simp add: GetUploadFromCacheMap_def RLock_RUnlock)

lemma SetUploadsDataLoader_loop_eq:
  "unheld (cacheMutex l) \<Longrightarrow>
   SetUploadsDataLoader_loop l ds =
     Inr (l\<lparr>uploads := uploads l @ map AddUpload_dump ds,
            uploadsByID := uploadsByID l ++ lastWithID (map AddUpload_dump ds)\<rparr>)"
proof (induction ds arbitrary: l)
  case Nil
  then show ?case by (simp add: lastWithID_Nil)
next
  case (Cons d ds)
  then show ?case
    by (simp add: AddUpload_unheld map_add_lastWithID_Cons ID_AddUpload_dump fun_upd_def)
qed

lemma find_map_comp: "find P (map f xs) = map_option f (find (\<lambda>x. P (f x)) xs)"
  by (induction xs) simp_all

lemma lastWithID_map_AddUpload_dump:
  "lastWithID (map AddUpload_dump ds) i =
     map_option AddUpload_dump (find (\<lambda>d. dbstore_Dump.ID d = i) (rev ds))"
  by (simp add: lastWithID_def rev_map find_map_comp ID_AddUpload_dump)

lemma SetUploadsDataLoader_loop_New:
  "SetUploadsDataLoader_loop NewUploadsDataLoader ds = Inr (loaded ds)"
  by (simp add: SetUploadsDataLoader_loop_eq unheld_RWMutex_zero NewUploadsDataLoader_def loaded_def)

lemma NewRequestState_eq:
  "NewRequestState ds ac client rp cm pth gitclient maxIndexes hunkCacheSize =
     Inr \<lparr> dataLoader = Some (loaded ds),
           GitTreeTranslator =
             (if hunkCacheSize \<le> 0 then None
              else Some (NewGitTreeTranslator client \<lparr>repo = rp, commit = cm, path = pth\<rparr>
                          (HunkCache hunkCacheSize))),
           commitCache = Some (newCommitCache gitclient),
           maximumIndexesPerMonikerSearch = maxIndexes,
           authChecker = ac \<rparr>"
  by (simp add: NewRequestState_def SetUploadsDataLoader_def SetUploadsDataLoader_loop_New
      RequestState_zero_def SetAuthChecker_def SetLocalGitTreeTranslator_def NewHunkCache_def
      SetLocalCommitCache_def SetMaximumIndexesPerMonikerSearch_def)

lemma AddUpload_via_midway:
  "AddUpload l d =
     (case AddUpload_midway l d of
        Inl f \<Rightarrow> Inl f
      | Inr l1 \<Rightarrow>
          (case Unlock (cacheMutex (AddUpload_store l1 d)) of
             Inl f \<Rightarrow> Inl f
           | Inr m' \<Rightarrow> Inr ((AddUpload_store l1 d)\<lparr>cacheMutex := m'\<rparr>)))"
  by (simp add: AddUpload_def AddUpload_midway_def Let_def split: sum.splits)

lemma loaded_simps:
  "uploads (loaded ds) = map AddUpload_dump ds"
  "uploadsByID (loaded ds) = lastWithID (map AddUpload_dump ds)"
  "cacheMutex (loaded ds) = RWMutex_zero"
  by (simp_all add: loaded_def)

lemma writer_RWMutex_zero: "\<not> writer RWMutex_zero"
  by (simp add: RWMutex_zero_def)

lemma AddUpload_dump_zero: "AddUpload_dump dbstore_Dump_zero = shared_Dump_zero"
  by (simp add: AddUpload_dump_def dbstore_Dump_zero_def shared_Dump_zero_def)

lemma same_upload_AddUpload_dump: "same_upload d (AddUpload_dump d)"
  by (simp add: same_upload_def AddUpload_dump_def)

lemma same_upload_unique: "same_upload d u \<Longrightarrow> same_upload d v \<Longrightarrow> u = v"
  by (cases u, cases v) (simp add: same_upload_def)

lemma same_upload_iff: "same_upload d u = (u = AddUpload_dump d)"
  using same_upload_unique [of d u "AddUpload_dump d"] same_upload_AddUpload_dump [of d] by auto

lemma list_all2_same_upload: "list_all2 same_upload ds (map AddUpload_dump ds)"
  by (induction ds) (simp_all add: same_upload_AddUpload_dump)

lemma same_upload_upload1:
  "same_upload upload1 u = (u = shared_Dump_zero\<lparr>shared_Dump.ID := 1, shared_Dump.Commit := ''c1''\<rparr>)"
  by (simp add: same_upload_iff AddUpload_dump_def upload1_def dbstore_Dump_zero_def
      shared_Dump_zero_def)

lemma same_upload_upload2:
  "same_upload upload2 u = (u = shared_Dump_zero\<lparr>shared_Dump.ID := 2, shared_Dump.Commit := ''c2''\<rparr>)"
  by (simp add: same_upload_iff AddUpload_dump_def upload2_def dbstore_Dump_zero_def
      shared_Dump_zero_def)


subsection \<open>Positional access\<close>

text \<open>
  Claim C4. For a cache of length L and any integer index n, negative ones and those
  from L on included, GetCacheUploadsAtIndex never faults: it returns the element at
  position n when 0 \<le> n < L, and the empty upload (the zero value) otherwise.
\<close>

theorem GetCacheUploadsAtIndex_tolerant:
  "dataLoader r = Some l \<Longrightarrow>
   GetCacheUploadsAtIndex r n =
     Inr (if 0 \<le> n \<and> n < int (length (uploads l)) then uploads l ! nat n else shared_Dump_zero)"
  by (simp add: GetCacheUploadsAtIndex_def slice_index_def)

theorem GetCacheUploadsAtIndex_tolerant_witness:
  "dataLoader (RequestState_zero\<lparr>dataLoader := Some (loaded [upload1, upload2])\<rparr>)
     = Some (loaded [upload1, upload2]) \<and>
   GetCacheUploadsAtIndex (RequestState_zero\<lparr>dataLoader := Some (loaded [upload1, upload2])\<rparr>) 1
     = Inr (AddUpload_dump upload2) \<and>
   GetCacheUploadsAtIndex (RequestState_zero\<lparr>dataLoader := Some (loaded [upload1, upload2])\<rparr>) 2
     = Inr shared_Dump_zero \<and>
   GetCacheUploadsAtIndex (RequestState_zero\<lparr>dataLoader := Some (loaded [upload1, upload2])\<rparr>) (- 1)
     = Inr shared_Dump_zero"
proof -
  let ?r = "RequestState_zero\<lparr>dataLoader := Some (loaded [upload1, upload2])\<rparr>"
  have h: "dataLoader ?r = Some (loaded [upload1, upload2])" by simp
  show ?thesis
    using h GetCacheUploadsAtIndex_tolerant [OF h, of 1]
      GetCacheUploadsAtIndex_tolerant [OF h, of 2]
      GetCacheUploadsAtIndex_tolerant [OF h, of "- 1"]
    by (simp add: loaded_simps)
qed

text \<open>
  Claim C10. GetCacheUploadsAtIndex returns an upload and nothing else. At an index out
  of range it returns the zero-value upload, and that is also what it returns at an index
  in range whose element is the zero value: the two results are equal, so the caller
  cannot tell them apart.
\<close>

theorem GetCacheUploadsAtIndex_zero_ambiguous:
  "dataLoader r = Some l \<Longrightarrow> n < 0 \<or> int (length (uploads l)) \<le> n \<Longrightarrow>
   dataLoader r' = Some l' \<Longrightarrow> 0 \<le> k \<Longrightarrow> k < int (length (uploads l')) \<Longrightarrow>
   uploads l' ! nat k = shared_Dump_zero \<Longrightarrow>
   GetCacheUploadsAtIndex r n = Inr shared_Dump_zero \<and>
   GetCacheUploadsAtIndex r' k = Inr shared_Dump_zero \<and>
   GetCacheUploadsAtIndex r n = GetCacheUploadsAtIndex r' k"
  by (auto simp add: GetCacheUploadsAtIndex_def slice_index_def)

theorem GetCacheUploadsAtIndex_zero_ambiguous_witness:
  "NewRequestState [dbstore_Dump_zero] None (Client 0) (Repo 0) [] [] (GitserverClient 0) 50 100
     = Inr \<lparr> dataLoader = Some (loaded [dbstore_Dump_zero]),
             GitTreeTranslator = Some (NewGitTreeTranslator (Client 0)
               \<lparr>repo = Repo 0, commit = [], path = []\<rparr> (HunkCache 100)),
             commitCache = Some (newCommitCache (GitserverClient 0)),
             maximumIndexesPerMonikerSearch = 50, authChecker = None \<rparr> \<and>
   GetCacheUploadsAtIndex
     \<lparr> dataLoader = Some (loaded [dbstore_Dump_zero]),
       GitTreeTranslator = Some (NewGitTreeTranslator (Client 0)
         \<lparr>repo = Repo 0, commit = [], path = []\<rparr> (HunkCache 100)),
       commitCache = Some (newCommitCache (GitserverClient 0)),
       maximumIndexesPerMonikerSearch = 50, authChecker = None \<rparr> 1
   = GetCacheUploadsAtIndex
     \<lparr> dataLoader = Some (loaded [dbstore_Dump_zero]),
       GitTreeTranslator = Some (NewGitTreeTranslator (Client 0)
         \<lparr>repo = Repo 0, commit = [], path = []\<rparr> (HunkCache 100)),
       commitCache = Some (newCommitCache (GitserverClient 0)),
       maximumIndexesPerMonikerSearch = 50, authChecker = None \<rparr> 0"
proof -
  let ?r = "\<lparr> dataLoader = Some (loaded [dbstore_Dump_zero]),
       GitTreeTranslator = Some (NewGitTreeTranslator (Client 0)
         \<lparr>repo = Repo 0, commit = [], path = []\<rparr> (HunkCache 100)),
       commitCache = Some (newCommitCache (GitserverClient 0)),
       maximumIndexesPerMonikerSearch = 50, authChecker = None \<rparr>"
  have h: "dataLoader ?r = Some (loaded [dbstore_Dump_zero])" by simp
  have out: "(1::int) < 0 \<or> int (length (uploads (loaded [dbstore_Dump_zero]))) \<le> 1"
    by (simp add: loaded_simps)
  have inr: "(0::int) \<le> 0" "(0::int) < int (length (uploads (loaded [dbstore_Dump_zero])))"
    by (simp_all add: loaded_simps)
  have z: "uploads (loaded [dbstore_Dump_zero]) ! nat 0 = shared_Dump_zero"
    by (simp add: loaded_simps AddUpload_dump_zero)
  show ?thesis
    using GetCacheUploadsAtIndex_zero_ambiguous [OF h out h inr z]
    by (simp add: NewRequestState_eq)
qed

subsection \<open>Insert and lookup\<close>

lemma GetUploadFromCacheMap_loaded:
  "GetUploadFromCacheMap (loaded ds) i =
     Inr (loaded ds,
          case find (\<lambda>d. dbstore_Dump.ID d = i) (rev ds) of
            None \<Rightarrow> (shared_Dump_zero, False)
          | Some d \<Rightarrow> (AddUpload_dump d, True))"
  by (simp add: GetUploadFromCacheMap_unheld loaded_simps writer_RWMutex_zero
      lastWithID_map_AddUpload_dump split: option.splits)

lemma find_SomeD: "find P xs = Some x \<Longrightarrow> x \<in> set xs \<and> P x"
  by (induction xs) (auto split: if_splits)

text \<open>
  Claim C3. After any sequence of AddUpload calls on a new loader, which is what
  \<open>SetUploadsDataLoader_loop\<close> runs (and so after each call of a longer sequence,
  whose calls so far are such a sequence), the ordered sequence holds one element per
  call, in call order, duplicates by identifier included, each with the fields of the
  upload inserted by that call, so its length is the number of calls. When some inserted
  upload carries the identifier, GetUploadFromCacheMap returns true and an upload with
  the fields of the most recently inserted one that carries it; otherwise it returns the
  zero value and false.
\<close>

theorem AddUpload_then_GetUploadFromCacheMap:
  "\<exists>l. SetUploadsDataLoader_loop NewUploadsDataLoader ds = Inr l \<and>
       length (uploads l) = length ds \<and>
       list_all2 same_upload ds (uploads l) \<and>
       (case find (\<lambda>d. dbstore_Dump.ID d = i) (rev ds) of
          None \<Rightarrow> GetUploadFromCacheMap l i = Inr (l, shared_Dump_zero, False)
        | Some d \<Rightarrow> (\<exists>u. GetUploadFromCacheMap l i = Inr (l, u, True) \<and> same_upload d u)) \<and>
       ((\<exists>u. GetUploadFromCacheMap l i = Inr (l, u, True)) =
        (\<exists>d \<in> set ds. dbstore_Dump.ID d = i))"
proof -
  have run: "SetUploadsDataLoader_loop NewUploadsDataLoader ds = Inr (loaded ds)"
    by (rule SetUploadsDataLoader_loop_New)
  have len: "length (uploads (loaded ds)) = length ds"
    by (simp add: loaded_simps)
  have seq: "list_all2 same_upload ds (uploads (loaded ds))"
    by (simp add: loaded_simps list_all2_same_upload)
  have look: "GetUploadFromCacheMap (loaded ds) i =
      Inr (loaded ds, case find (\<lambda>d. dbstore_Dump.ID d = i) (rev ds) of
                        None \<Rightarrow> (shared_Dump_zero, False)
                      | Some d \<Rightarrow> (AddUpload_dump d, True))"
    by (rule GetUploadFromCacheMap_loaded)
  have latest: "case find (\<lambda>d. dbstore_Dump.ID d = i) (rev ds) of
          None \<Rightarrow> GetUploadFromCacheMap (loaded ds) i = Inr (loaded ds, shared_Dump_zero, False)
        | Some d \<Rightarrow> (\<exists>u. GetUploadFromCacheMap (loaded ds) i = Inr (loaded ds, u, True) \<and>
                         same_upload d u)"
  proof (cases "find (\<lambda>d. dbstore_Dump.ID d = i) (rev ds)")
    case None
    with look show ?thesis by simp
  next
    case (Some d)
    with look have "GetUploadFromCacheMap (loaded ds) i = Inr (loaded ds, AddUpload_dump d, True)"
      by simp
    with Some show ?thesis
      using same_upload_AddUpload_dump [of d] by auto
  qed
  have found: "(\<exists>u. GetUploadFromCacheMap (loaded ds) i = Inr (loaded ds, u, True)) =
      (\<exists>d \<in> set ds. dbstore_Dump.ID d = i)"
  proof (cases "find (\<lambda>d. dbstore_Dump.ID d = i) (rev ds)")
    case None
    then have "\<not> (\<exists>d \<in> set ds. dbstore_Dump.ID d = i)"
      by (simp add: find_None_iff)
    with None look show ?thesis by simp
  next
    case (Some d)
    then have "d \<in> set ds \<and> dbstore_Dump.ID d = i"
      using find_SomeD [of "\<lambda>d. dbstore_Dump.ID d = i" "rev ds" d] by simp
    with Some look show ?thesis by auto
  qed
  show ?thesis
    by (intro exI [of _ "loaded ds"] conjI) (fact run len seq latest found)+
qed

theorem AddUpload_then_GetUploadFromCacheMap_witness:
  "\<exists>l. SetUploadsDataLoader_loop NewUploadsDataLoader
          [upload1, upload2, upload1\<lparr>dbstore_Dump.Commit := ''c3''\<rparr>] = Inr l \<and>
       length (uploads l) = 3 \<and>
       map shared_Dump.Commit (uploads l) = [''c1'', ''c2'', ''c3''] \<and>
       map shared_Dump.ID (uploads l) = [1, 2, 1] \<and>
       GetUploadFromCacheMap l 1 =
         Inr (l, shared_Dump_zero\<lparr>shared_Dump.ID := 1, shared_Dump.Commit := ''c3''\<rparr>, True) \<and>
       GetUploadFromCacheMap l 99 = Inr (l, shared_Dump_zero, False)"
proof -
  define ds where "ds = [upload1, upload2, upload1\<lparr>dbstore_Dump.Commit := ''c3''\<rparr>]"
  have ids: "dbstore_Dump.ID upload1 = 1" "dbstore_Dump.ID upload2 = 2"
    by (simp_all add: upload1_def upload2_def)
  have f1: "find (\<lambda>d. dbstore_Dump.ID d = 1) (rev ds) = Some (upload1\<lparr>dbstore_Dump.Commit := ''c3''\<rparr>)"
    and f99: "find (\<lambda>d. dbstore_Dump.ID d = 99) (rev ds) = None"
    by (simp_all add: ds_def ids)
  obtain l u where l: "SetUploadsDataLoader_loop NewUploadsDataLoader ds = Inr l"
      "length (uploads l) = length ds" "list_all2 same_upload ds (uploads l)"
      "GetUploadFromCacheMap l 1 = Inr (l, u, True)"
      "same_upload (upload1\<lparr>dbstore_Dump.Commit := ''c3''\<rparr>) u"
    using AddUpload_then_GetUploadFromCacheMap [of ds 1] unfolding f1 by auto
  obtain l' where l': "SetUploadsDataLoader_loop NewUploadsDataLoader ds = Inr l'"
      "GetUploadFromCacheMap l' 99 = Inr (l', shared_Dump_zero, False)"
    using AddUpload_then_GetUploadFromCacheMap [of ds 99] unfolding f99 by auto
  have same: "l' = l"
    using l(1) l'(1) by simp
  have u: "u = shared_Dump_zero\<lparr>shared_Dump.ID := 1, shared_Dump.Commit := ''c3''\<rparr>"
    using l(5) by (cases u) (simp add: same_upload_def upload1_def dbstore_Dump_zero_def
        shared_Dump_zero_def)
  have len: "length (uploads l) = 3"
    using l(2) by (simp add: ds_def)
  have commits: "map shared_Dump.Commit (uploads l) = map dbstore_Dump.Commit ds"
    and idents: "map shared_Dump.ID (uploads l) = map dbstore_Dump.ID ds"
    using l(3) by (simp_all add: list_all2_conv_all_nth list_eq_iff_nth_eq same_upload_def)
  have commits': "map shared_Dump.Commit (uploads l) = [''c1'', ''c2'', ''c3'']"
    unfolding commits by (simp add: ds_def upload1_def upload2_def dbstore_Dump_zero_def)
  have idents': "map shared_Dump.ID (uploads l) = [1, 2, 1]"
    unfolding idents by (simp add: ds_def ids)
  show ?thesis
    using l(1) len commits' idents' l(4) l'(2) unfolding same u ds_def
    by (intro exI [of _ l]) simp
qed

subsection \<open>Bulk refresh\<close>

text \<open>
  Claim C5. On any cache whose lock is free, SetUploadInCacheMap returns and leaves the
  ordered sequence as it was, length included, so GetCacheUploads shows the same list
  before and after. In the mapping, an identifier of the refresh set ends with the last
  upload of the refresh set that carries it; every other identifier keeps its entry, and
  no entry is removed.
\<close>

theorem SetUploadInCacheMap_frame:
  "unheld (cacheMutex l) \<Longrightarrow>
   \<exists>l'. SetUploadInCacheMap l us = Inr l' \<and>
        uploads l' = uploads l \<and>
        length (uploads l') = length (uploads l) \<and>
        GetCacheUploads (r\<lparr>dataLoader := Some l'\<rparr>) = GetCacheUploads (r\<lparr>dataLoader := Some l\<rparr>) \<and>
        cacheMutex l' = cacheMutex l \<and>
        (\<forall>i. i \<notin> shared_Dump.ID ` set us \<longrightarrow> uploadsByID l' i = uploadsByID l i) \<and>
        (\<forall>i. i \<in> shared_Dump.ID ` set us \<longrightarrow>
             uploadsByID l' i = lastWithID us i \<and> uploadsByID l' i \<noteq> None) \<and>
        dom (uploadsByID l) \<subseteq> dom (uploadsByID l')"
proof -
  assume free: "unheld (cacheMutex l)"
  define l' where "l' = l\<lparr>uploadsByID := uploadsByID l ++ lastWithID us\<rparr>"
  have run: "SetUploadInCacheMap l us = Inr l'"
    unfolding l'_def using free by (rule SetUploadInCacheMap_unheld)
  have seq: "uploads l' = uploads l" and mtx: "cacheMutex l' = cacheMutex l"
    and byid: "uploadsByID l' = uploadsByID l ++ lastWithID us"
    by (simp_all add: l'_def)
  have view: "GetCacheUploads (r\<lparr>dataLoader := Some l'\<rparr>) = GetCacheUploads (r\<lparr>dataLoader := Some l\<rparr>)"
    by (simp add: GetCacheUploads_def seq)
  have other: "\<forall>i. i \<notin> shared_Dump.ID ` set us \<longrightarrow> uploadsByID l' i = uploadsByID l i"
    by (simp add: byid map_add_def lastWithID_None_iff [symmetric])
  have inset: "\<forall>i. i \<in> shared_Dump.ID ` set us \<longrightarrow>
      uploadsByID l' i = lastWithID us i \<and> uploadsByID l' i \<noteq> None"
  proof (intro allI impI)
    fix i assume "i \<in> shared_Dump.ID ` set us"
    then have "lastWithID us i \<noteq> None"
      by (simp add: lastWithID_None_iff)
    then show "uploadsByID l' i = lastWithID us i \<and> uploadsByID l' i \<noteq> None"
      by (auto simp: byid map_add_def)
  qed
  have keep: "dom (uploadsByID l) \<subseteq> dom (uploadsByID l')"
    by (simp add: byid)
  have len: "length (uploads l') = length (uploads l)"
    by (simp add: seq)
  show ?thesis
    by (intro exI [of _ l'] conjI) (fact run seq len view mtx other inset keep)+
qed


theorem SetUploadInCacheMap_frame_witness:
  "unheld (cacheMutex (loaded [upload1, upload2])) \<and>
   SetUploadInCacheMap (loaded [upload1, upload2])
       [shared_Dump_zero\<lparr>shared_Dump.ID := 2\<rparr>, shared_Dump_zero\<lparr>shared_Dump.ID := 7\<rparr>] =
     Inr ((loaded [upload1, upload2])
            \<lparr>uploadsByID := [1 \<mapsto> AddUpload_dump upload1,
                             2 \<mapsto> shared_Dump_zero\<lparr>shared_Dump.ID := 2\<rparr>,
                             7 \<mapsto> shared_Dump_zero\<lparr>shared_Dump.ID := 7\<rparr>]\<rparr>) \<and>
   uploads ((loaded [upload1, upload2])
            \<lparr>uploadsByID := [1 \<mapsto> AddUpload_dump upload1,
                             2 \<mapsto> shared_Dump_zero\<lparr>shared_Dump.ID := 2\<rparr>,
                             7 \<mapsto> shared_Dump_zero\<lparr>shared_Dump.ID := 7\<rparr>]\<rparr>) =
     [AddUpload_dump upload1, AddUpload_dump upload2]"
proof -
  define l where "l = loaded [upload1, upload2]"
  define us where
    "us = [shared_Dump_zero\<lparr>shared_Dump.ID := 2\<rparr>, shared_Dump_zero\<lparr>shared_Dump.ID := 7\<rparr>]"
  have free: "unheld (cacheMutex l)"
    by (simp add: l_def loaded_simps unheld_RWMutex_zero)
  obtain l' where l': "SetUploadInCacheMap l us = Inr l'" "uploads l' = uploads l"
    using SetUploadInCacheMap_frame [OF free, of us RequestState_zero] by blast
  have ids: "dbstore_Dump.ID upload1 = 1" "dbstore_Dump.ID upload2 = 2"
    by (simp_all add: upload1_def upload2_def)
  have byid: "uploadsByID l ++ lastWithID us =
      [1 \<mapsto> AddUpload_dump upload1,
       2 \<mapsto> shared_Dump_zero\<lparr>shared_Dump.ID := 2\<rparr>,
       7 \<mapsto> shared_Dump_zero\<lparr>shared_Dump.ID := 7\<rparr>]"
    by (rule ext)
      (simp add: l_def us_def loaded_simps lastWithID_def map_add_def ID_AddUpload_dump ids)
  have "Inr l' = Inr (l\<lparr>uploadsByID := uploadsByID l ++ lastWithID us\<rparr>)"
    using l'(1) SetUploadInCacheMap_unheld [OF free, of us] by simp
  then have eq: "l' = l\<lparr>uploadsByID := [1 \<mapsto> AddUpload_dump upload1,
       2 \<mapsto> shared_Dump_zero\<lparr>shared_Dump.ID := 2\<rparr>,
       7 \<mapsto> shared_Dump_zero\<lparr>shared_Dump.ID := 7\<rparr>]\<rparr>"
    by (simp add: byid)
  have seq: "uploads l = [AddUpload_dump upload1, AddUpload_dump upload2]"
    by (simp add: l_def loaded_simps)
  show ?thesis
    using free l' seq unfolding eq unfolding l_def us_def by simp
qed

subsection \<open>Construction\<close>

lemma GetCacheUploads_NewRequestState:
  "NewRequestState ds ac client rp cm pth gitclient maxIndexes hunkCacheSize = Inr s \<Longrightarrow>
   dataLoader s = Some (loaded ds) \<and> GetCacheUploads s = Inr (map AddUpload_dump ds)"
  unfolding NewRequestState_eq by (auto simp: GetCacheUploads_def loaded_simps)

text \<open>
  Claim C6. Whatever list of uploads NewRequestState is given, GetCacheUploads on the
  state it returns enumerates exactly those uploads, in the order supplied: as many
  elements, the element at each position with the fields of the upload supplied at that
  position. The end-to-end example: built from two uploads with identifiers 1 and 2, a
  batch bound of 50 and a hunk-cache capacity of 100, the state lists both in input
  order, has the first at index 0 and the empty upload at index 5, finds the second under
  identifier 2 and finds nothing under identifier 99.
\<close>

theorem NewRequestState_GetCacheUploads:
  "(\<exists>s us. NewRequestState ds ac client rp cm pth gitclient maxIndexes hunkCacheSize = Inr s \<and>
        GetCacheUploads s = Inr us \<and>
        length us = length ds \<and>
        list_all2 same_upload ds us) \<and>
   (\<exists>s l u1 u2. NewRequestState [d1\<lparr>dbstore_Dump.ID := 1\<rparr>, d2\<lparr>dbstore_Dump.ID := 2\<rparr>]
             ac client rp cm pth gitclient 50 100 = Inr s \<and>
          dataLoader s = Some l \<and>
          same_upload (d1\<lparr>dbstore_Dump.ID := 1\<rparr>) u1 \<and>
          same_upload (d2\<lparr>dbstore_Dump.ID := 2\<rparr>) u2 \<and>
          GetCacheUploads s = Inr [u1, u2] \<and>
          GetCacheUploadsAtIndex s 0 = Inr u1 \<and>
          GetCacheUploadsAtIndex s 5 = Inr shared_Dump_zero \<and>
          GetUploadFromCacheMap l 2 = Inr (l, u2, True) \<and>
          GetUploadFromCacheMap l 99 = Inr (l, shared_Dump_zero, False))"
proof (rule conjI)
  obtain s where s: "NewRequestState ds ac client rp cm pth gitclient maxIndexes hunkCacheSize = Inr s"
    using NewRequestState_eq by blast
  then have all: "GetCacheUploads s = Inr (map AddUpload_dump ds)"
    using GetCacheUploads_NewRequestState by blast
  have len: "length (map AddUpload_dump ds) = length ds"
    by simp
  have same: "list_all2 same_upload ds (map AddUpload_dump ds)"
    by (rule list_all2_same_upload)
  show "\<exists>s us. NewRequestState ds ac client rp cm pth gitclient maxIndexes hunkCacheSize = Inr s \<and>
        GetCacheUploads s = Inr us \<and> length us = length ds \<and> list_all2 same_upload ds us"
    by (intro exI [of _ s] exI [of _ "map AddUpload_dump ds"] conjI) (fact s all len same)+
next
  define e1 where "e1 = d1\<lparr>dbstore_Dump.ID := 1\<rparr>"
  define e2 where "e2 = d2\<lparr>dbstore_Dump.ID := 2\<rparr>"
  have ids: "dbstore_Dump.ID e1 = 1" "dbstore_Dump.ID e2 = 2"
    by (simp_all add: e1_def e2_def)
  obtain s where s: "NewRequestState [e1, e2] ac client rp cm pth gitclient 50 100 = Inr s"
    using NewRequestState_eq by blast
  then have dl: "dataLoader s = Some (loaded [e1, e2])"
    and all: "GetCacheUploads s = Inr [AddUpload_dump e1, AddUpload_dump e2]"
    using GetCacheUploads_NewRequestState [OF s] by simp_all
  have c1: "same_upload e1 (AddUpload_dump e1)" and c2: "same_upload e2 (AddUpload_dump e2)"
    by (rule same_upload_AddUpload_dump)+
  have at0: "GetCacheUploadsAtIndex s 0 = Inr (AddUpload_dump e1)"
    by (simp add: GetCacheUploadsAtIndex_def slice_index_def dl loaded_simps)
  have at5: "GetCacheUploadsAtIndex s 5 = Inr shared_Dump_zero"
    by (simp add: GetCacheUploadsAtIndex_def dl loaded_simps)
  have look2: "GetUploadFromCacheMap (loaded [e1, e2]) 2 = Inr (loaded [e1, e2], AddUpload_dump e2, True)"
    by (simp add: GetUploadFromCacheMap_loaded ids)
  have look99: "GetUploadFromCacheMap (loaded [e1, e2]) 99 = Inr (loaded [e1, e2], shared_Dump_zero, False)"
    by (simp add: GetUploadFromCacheMap_loaded ids)
  show "\<exists>s l u1 u2. NewRequestState [d1\<lparr>dbstore_Dump.ID := 1\<rparr>, d2\<lparr>dbstore_Dump.ID := 2\<rparr>]
             ac client rp cm pth gitclient 50 100 = Inr s \<and>
          dataLoader s = Some l \<and>
          same_upload (d1\<lparr>dbstore_Dump.ID := 1\<rparr>) u1 \<and>
          same_upload (d2\<lparr>dbstore_Dump.ID := 2\<rparr>) u2 \<and>
          GetCacheUploads s = Inr [u1, u2] \<and>
          GetCacheUploadsAtIndex s 0 = Inr u1 \<and>
          GetCacheUploadsAtIndex s 5 = Inr shared_Dump_zero \<and>
          GetUploadFromCacheMap l 2 = Inr (l, u2, True) \<and>
          GetUploadFromCacheMap l 99 = Inr (l, shared_Dump_zero, False)"
    unfolding e1_def [symmetric] e2_def [symmetric]
    by (intro exI [of _ s] exI [of _ "loaded [e1, e2]"] exI [of _ "AddUpload_dump e1"]
        exI [of _ "AddUpload_dump e2"] conjI)
      (fact s dl c1 c2 all at0 at5 look2 look99)+
qed

theorem NewRequestState_GetCacheUploads_witness:
  "\<exists>s l. NewRequestState [upload1, upload2] None (Client 0) (Repo 0) ''c'' ''p''
            (GitserverClient 0) 50 100 = Inr s \<and>
         dataLoader s = Some l \<and>
         GetCacheUploads s =
           Inr [shared_Dump_zero\<lparr>shared_Dump.ID := 1, shared_Dump.Commit := ''c1''\<rparr>,
                shared_Dump_zero\<lparr>shared_Dump.ID := 2, shared_Dump.Commit := ''c2''\<rparr>] \<and>
         GetCacheUploadsAtIndex s 0 =
           Inr (shared_Dump_zero\<lparr>shared_Dump.ID := 1, shared_Dump.Commit := ''c1''\<rparr>) \<and>
         GetCacheUploadsAtIndex s 5 = Inr shared_Dump_zero \<and>
         GetUploadFromCacheMap l 2 =
           Inr (l, shared_Dump_zero\<lparr>shared_Dump.ID := 2, shared_Dump.Commit := ''c2''\<rparr>, True) \<and>
         GetUploadFromCacheMap l 99 = Inr (l, shared_Dump_zero, False)"
proof -
  have e1: "upload1\<lparr>dbstore_Dump.ID := 1\<rparr> = upload1" and e2: "upload2\<lparr>dbstore_Dump.ID := 2\<rparr> = upload2"
    by (simp_all add: upload1_def upload2_def)
  obtain s l u1 u2 where ex:
      "NewRequestState [upload1, upload2] None (Client 0) (Repo 0) ''c'' ''p''
         (GitserverClient 0) 50 100 = Inr s"
      "dataLoader s = Some l"
      "same_upload upload1 u1" "same_upload upload2 u2"
      "GetCacheUploads s = Inr [u1, u2]"
      "GetCacheUploadsAtIndex s 0 = Inr u1"
      "GetCacheUploadsAtIndex s 5 = Inr shared_Dump_zero"
      "GetUploadFromCacheMap l 2 = Inr (l, u2, True)"
      "GetUploadFromCacheMap l 99 = Inr (l, shared_Dump_zero, False)"
    using NewRequestState_GetCacheUploads
      [of "[]" None "Client 0" "Repo 0" "''c''" "''p''" "GitserverClient 0" 0 0 upload1 upload2]
    unfolding e1 e2 by blast
  have u1: "u1 = shared_Dump_zero\<lparr>shared_Dump.ID := 1, shared_Dump.Commit := ''c1''\<rparr>"
    using ex(3) by (simp add: same_upload_upload1)
  have u2: "u2 = shared_Dump_zero\<lparr>shared_Dump.ID := 2, shared_Dump.Commit := ''c2''\<rparr>"
    using ex(4) by (simp add: same_upload_upload2)
  show ?thesis
    using ex(1,2,5-9) unfolding u1 u2 by blast
qed

text \<open>
  Claim C7. For the uploads given to NewRequestState, the cached representation of each
  carries every attribute of the stored one unchanged: identifier, commit, root,
  visibility flag, the four lifecycle timestamps, processing state, failure message, the
  two retry counters, repository identifier and name, indexer name and version, and the
  optional link to the index job. The cached sequence is the supplied list, field by
  field and position by position.
\<close>

theorem NewRequestState_copies_every_field:
  "\<exists>s l. NewRequestState ds ac client rp cm pth gitclient maxIndexes hunkCacheSize = Inr s \<and>
     dataLoader s = Some l \<and>
     length (uploads l) = length ds \<and>
     map shared_Dump.ID (uploads l) = map dbstore_Dump.ID ds \<and>
     map shared_Dump.Commit (uploads l) = map dbstore_Dump.Commit ds \<and>
     map shared_Dump.Root (uploads l) = map dbstore_Dump.Root ds \<and>
     map shared_Dump.VisibleAtTip (uploads l) = map dbstore_Dump.VisibleAtTip ds \<and>
     map shared_Dump.UploadedAt (uploads l) = map dbstore_Dump.UploadedAt ds \<and>
     map shared_Dump.State (uploads l) = map dbstore_Dump.State ds \<and>
     map shared_Dump.FailureMessage (uploads l) = map dbstore_Dump.FailureMessage ds \<and>
     map shared_Dump.StartedAt (uploads l) = map dbstore_Dump.StartedAt ds \<and>
     map shared_Dump.FinishedAt (uploads l) = map dbstore_Dump.FinishedAt ds \<and>
     map shared_Dump.ProcessAfter (uploads l) = map dbstore_Dump.ProcessAfter ds \<and>
     map shared_Dump.NumResets (uploads l) = map dbstore_Dump.NumResets ds \<and>
     map shared_Dump.NumFailures (uploads l) = map dbstore_Dump.NumFailures ds \<and>
     map shared_Dump.RepositoryID (uploads l) = map dbstore_Dump.RepositoryID ds \<and>
     map shared_Dump.RepositoryName (uploads l) = map dbstore_Dump.RepositoryName ds \<and>
     map shared_Dump.Indexer (uploads l) = map dbstore_Dump.Indexer ds \<and>
     map shared_Dump.IndexerVersion (uploads l) = map dbstore_Dump.IndexerVersion ds \<and>
     map shared_Dump.AssociatedIndexID (uploads l) = map dbstore_Dump.AssociatedIndexID ds"
proof -
  obtain s where s: "NewRequestState ds ac client rp cm pth gitclient maxIndexes hunkCacheSize = Inr s"
    using NewRequestState_eq by blast
  have dl: "dataLoader s = Some (loaded ds)"
    using GetCacheUploads_NewRequestState [OF s] by simp
  have seq: "uploads (loaded ds) = map AddUpload_dump ds"
    by (simp add: loaded_simps)
  have field: "map f (uploads (loaded ds)) = map g ds" if "\<And>d. f (AddUpload_dump d) = g d"
    for f :: "shared_Dump \<Rightarrow> 'a" and g
    by (simp add: seq that)
  show ?thesis
    apply (intro exI [of _ s] exI [of _ "loaded ds"] conjI)
                      apply (fact s)
                     apply (fact dl)
                    apply (simp add: seq)
                   apply (rule field, simp add: AddUpload_dump_def)+
    done
qed

subsection \<open>The configuration inputs\<close>

lemma SetLocalGitTreeTranslator_error:
  "snd (SetLocalGitTreeTranslator r client rp cm pth hunkCacheSize) =
     (if hunkCacheSize \<le> 0 then Some ConfigurationError else None)"
  by (simp add: SetLocalGitTreeTranslator_def NewHunkCache_def)

text \<open>
  Claim C1, as the code has it. With a hunk-cache capacity that is zero or negative,
  SetLocalGitTreeTranslator returns the configuration error and leaves the state as it
  was; NewRequestState, which calls it as a statement, still returns a state: the
  uploads loaded, the commit cache and the batch bound set, and no translator.
\<close>

theorem NewRequestState_drops_ConfigurationError:
  "hunkCacheSize \<le> 0 \<Longrightarrow>
   SetLocalGitTreeTranslator r client rp cm pth hunkCacheSize = (r, Some ConfigurationError) \<and>
   NewRequestState ds ac client rp cm pth gitclient maxIndexes hunkCacheSize =
     Inr \<lparr> dataLoader = Some (loaded ds),
           GitTreeTranslator = None,
           commitCache = Some (newCommitCache gitclient),
           maximumIndexesPerMonikerSearch = maxIndexes,
           authChecker = ac \<rparr>"
proof
  assume bad: "hunkCacheSize \<le> 0"
  then have "NewHunkCache hunkCacheSize = Inl ConfigurationError"
    by (simp add: NewHunkCache_def)
  then show "SetLocalGitTreeTranslator r client rp cm pth hunkCacheSize = (r, Some ConfigurationError)"
    by (simp add: SetLocalGitTreeTranslator_def)
  from bad show "NewRequestState ds ac client rp cm pth gitclient maxIndexes hunkCacheSize =
     Inr \<lparr> dataLoader = Some (loaded ds),
           GitTreeTranslator = None,
           commitCache = Some (newCommitCache gitclient),
           maximumIndexesPerMonikerSearch = maxIndexes,
           authChecker = ac \<rparr>"
    by (simp add: NewRequestState_eq)
qed

theorem NewRequestState_drops_ConfigurationError_witness:
  "(0::int) \<le> 0 \<and>
   SetLocalGitTreeTranslator RequestState_zero (Client 0) (Repo 0) ''c'' ''p'' 0 =
     (RequestState_zero, Some ConfigurationError) \<and>
   NewRequestState [upload1, upload2] None (Client 0) (Repo 0) ''c'' ''p'' (GitserverClient 0) 50 0 =
     Inr \<lparr> dataLoader = Some (loaded [upload1, upload2]),
           GitTreeTranslator = None,
           commitCache = Some (newCommitCache (GitserverClient 0)),
           maximumIndexesPerMonikerSearch = 50,
           authChecker = None \<rparr>"
proof -
  have h: "(0::int) \<le> 0" by simp
  show ?thesis
    using h NewRequestState_drops_ConfigurationError
      [OF h, of RequestState_zero "Client 0" "Repo 0" "''c''" "''p''" "[upload1, upload2]" None
        "GitserverClient 0" 50]
    by simp
qed

text \<open>
  Claim C8, the counterexample: built with a batch bound of -5 and a hunk-cache capacity
  of 100, the state is complete and holds the bound -5.
\<close>

theorem NewRequestState_negative_maxIndexes:
  "NewRequestState [] None (Client 0) (Repo 0) ''c'' ''p'' (GitserverClient 0) (- 5) 100 =
     Inr \<lparr> dataLoader = Some (loaded []),
           GitTreeTranslator =
             Some (NewGitTreeTranslator (Client 0) \<lparr>repo = Repo 0, commit = ''c'', path = ''p''\<rparr>
                     (HunkCache 100)),
           commitCache = Some (newCommitCache (GitserverClient 0)),
           maximumIndexesPerMonikerSearch = - 5,
           authChecker = None \<rparr> \<and>
   \<not> 0 < maximumIndexesPerMonikerSearch
     \<lparr> dataLoader = Some (loaded []),
       GitTreeTranslator =
         Some (NewGitTreeTranslator (Client 0) \<lparr>repo = Repo 0, commit = ''c'', path = ''p''\<rparr>
                 (HunkCache 100)),
       commitCache = Some (newCommitCache (GitserverClient 0)),
       maximumIndexesPerMonikerSearch = - 5,
       authChecker = None \<rparr>"
  by (simp add: NewRequestState_eq)

text \<open>
  Claim C8, amended. NewRequestState does not validate the batch bound: with a positive
  hunk-cache capacity it returns a complete state that holds the bound it was given,
  whatever its sign. The hunk-cache capacity is checked where the hunk cache is built:
  SetLocalGitTreeTranslator returns the configuration error exactly when the capacity is
  zero or negative, and installs the translator otherwise.
\<close>

theorem NewRequestState_stores_maxIndexes_verbatim:
  "(0 < hunkCacheSize \<longrightarrow>
      NewRequestState ds ac client rp cm pth gitclient maxIndexes hunkCacheSize =
        Inr \<lparr> dataLoader = Some (loaded ds),
              GitTreeTranslator =
                Some (NewGitTreeTranslator client \<lparr>repo = rp, commit = cm, path = pth\<rparr>
                        (HunkCache hunkCacheSize)),
              commitCache = Some (newCommitCache gitclient),
              maximumIndexesPerMonikerSearch = maxIndexes,
              authChecker = ac \<rparr>) \<and>
   (snd (SetLocalGitTreeTranslator r client rp cm pth hunkCacheSize) = Some ConfigurationError)
     = (hunkCacheSize \<le> 0) \<and>
   (SetLocalGitTreeTranslator r client rp cm pth hunkCacheSize =
      (r\<lparr>GitTreeTranslator :=
           Some (NewGitTreeTranslator client \<lparr>repo = rp, commit = cm, path = pth\<rparr>
                   (HunkCache hunkCacheSize))\<rparr>, None))
     = (0 < hunkCacheSize)"
proof (intro conjI impI)
  assume "0 < hunkCacheSize"
  then show "NewRequestState ds ac client rp cm pth gitclient maxIndexes hunkCacheSize =
        Inr \<lparr> dataLoader = Some (loaded ds),
              GitTreeTranslator =
                Some (NewGitTreeTranslator client \<lparr>repo = rp, commit = cm, path = pth\<rparr>
                        (HunkCache hunkCacheSize)),
              commitCache = Some (newCommitCache gitclient),
              maximumIndexesPerMonikerSearch = maxIndexes,
              authChecker = ac \<rparr>"
    by (simp add: NewRequestState_eq)
next
  show "(snd (SetLocalGitTreeTranslator r client rp cm pth hunkCacheSize) = Some ConfigurationError)
     = (hunkCacheSize \<le> 0)"
    by (simp add: SetLocalGitTreeTranslator_error)
next
  show "(SetLocalGitTreeTranslator r client rp cm pth hunkCacheSize =
      (r\<lparr>GitTreeTranslator :=
           Some (NewGitTreeTranslator client \<lparr>repo = rp, commit = cm, path = pth\<rparr>
                   (HunkCache hunkCacheSize))\<rparr>, None))
     = (0 < hunkCacheSize)"
    by (auto simp add: SetLocalGitTreeTranslator_def NewHunkCache_def)
qed

theorem NewRequestState_stores_maxIndexes_verbatim_witness:
  "(0::int) < 100 \<and>
   NewRequestState [upload1] None (Client 0) (Repo 0) ''c'' ''p'' (GitserverClient 0) 0 100 =
     Inr \<lparr> dataLoader = Some (loaded [upload1]),
           GitTreeTranslator =
             Some (NewGitTreeTranslator (Client 0) \<lparr>repo = Repo 0, commit = ''c'', path = ''p''\<rparr>
                     (HunkCache 100)),
           commitCache = Some (newCommitCache (GitserverClient 0)),
           maximumIndexesPerMonikerSearch = 0,
           authChecker = None \<rparr> \<and>
   snd (SetLocalGitTreeTranslator RequestState_zero (Client 0) (Repo 0) ''c'' ''p'' 100)
     \<noteq> Some ConfigurationError"
  using NewRequestState_stores_maxIndexes_verbatim
    [of 100 "[upload1]" None "Client 0" "Repo 0" "''c''" "''p''" "GitserverClient 0" 0
      RequestState_zero]
  by simp

subsection \<open>The mapping against the sequence\<close>








subsection \<open>The lock\<close>

lemma AddUpload_midway_New:
  "AddUpload_midway NewUploadsDataLoader d =
     Inr \<lparr> uploads = [AddUpload_dump d], uploadsByID = Map.empty,
           cacheMutex = \<lparr> writer = True, readers = 0 \<rparr> \<rparr>"
  by (simp add: AddUpload_midway_def NewUploadsDataLoader_def Lock_def RWMutex_zero_def
      AddUpload_append_def)

text \<open>
  Claim C9, as the code has it. GetUploadFromCacheMap, SetUploadInCacheMap and AddUpload
  take the lock: called while a writer holds it, they wait. GetCacheUploads and
  GetCacheUploadsAtIndex contain no lock call: called in the same state they return what
  the sequence holds at that moment.
\<close>

theorem GetCacheUploads_takes_no_lock:
  "dataLoader r = Some l \<Longrightarrow> writer (cacheMutex l) \<Longrightarrow>
   GetUploadFromCacheMap l i = Inl Blocked \<and>
   SetUploadInCacheMap l us = Inl Blocked \<and>
   AddUpload l d = Inl Blocked \<and>
   GetCacheUploads r = Inr (uploads l) \<and>
   GetCacheUploadsAtIndex r n =
     Inr (if 0 \<le> n \<and> n < int (length (uploads l)) then uploads l ! nat n else shared_Dump_zero)"
proof -
  assume dl: "dataLoader r = Some l" and held: "writer (cacheMutex l)"
  from held have rl: "RLock (cacheMutex l) = Inl Blocked" and wl: "Lock (cacheMutex l) = Inl Blocked"
    by (simp_all add: RLock_def Lock_def)
  have look: "GetUploadFromCacheMap l i = Inl Blocked"
    by (simp add: GetUploadFromCacheMap_def rl)
  have refresh: "SetUploadInCacheMap l us = Inl Blocked"
    by (simp add: SetUploadInCacheMap_def wl)
  have insert: "AddUpload l d = Inl Blocked"
    by (simp add: AddUpload_def wl)
  have all: "GetCacheUploads r = Inr (uploads l)"
    by (simp add: GetCacheUploads_def dl)
  have at: "GetCacheUploadsAtIndex r n =
     Inr (if 0 \<le> n \<and> n < int (length (uploads l)) then uploads l ! nat n else shared_Dump_zero)"
    by (simp add: GetCacheUploadsAtIndex_def slice_index_def dl)
  from look refresh insert all at show ?thesis by simp
qed

theorem GetCacheUploads_takes_no_lock_witness:
  "AddUpload_midway NewUploadsDataLoader upload1 =
     Inr \<lparr> uploads = [AddUpload_dump upload1], uploadsByID = Map.empty,
           cacheMutex = \<lparr> writer = True, readers = 0 \<rparr> \<rparr> \<and>
   writer (cacheMutex \<lparr> uploads = [AddUpload_dump upload1], uploadsByID = Map.empty,
           cacheMutex = \<lparr> writer = True, readers = 0 \<rparr> \<rparr>) \<and>
   GetUploadFromCacheMap
     \<lparr> uploads = [AddUpload_dump upload1], uploadsByID = Map.empty,
       cacheMutex = \<lparr> writer = True, readers = 0 \<rparr> \<rparr> 1 = Inl Blocked \<and>
   GetCacheUploads
     (RequestState_zero\<lparr>dataLoader :=
        Some \<lparr> uploads = [AddUpload_dump upload1], uploadsByID = Map.empty,
               cacheMutex = \<lparr> writer = True, readers = 0 \<rparr> \<rparr>\<rparr>) =
     Inr [AddUpload_dump upload1] \<and>
   GetCacheUploadsAtIndex
     (RequestState_zero\<lparr>dataLoader :=
        Some \<lparr> uploads = [AddUpload_dump upload1], uploadsByID = Map.empty,
               cacheMutex = \<lparr> writer = True, readers = 0 \<rparr> \<rparr>\<rparr>) 0 =
     Inr (AddUpload_dump upload1) \<and>
   uploadsByID \<lparr> uploads = [AddUpload_dump upload1], uploadsByID = Map.empty,
           cacheMutex = \<lparr> writer = True, readers = 0 \<rparr> \<rparr>
     (shared_Dump.ID (AddUpload_dump upload1)) = None"
proof -
  define lm where "lm = \<lparr> uploads = [AddUpload_dump upload1], uploadsByID = Map.empty,
           cacheMutex = \<lparr> writer = True, readers = 0 \<rparr> \<rparr>"
  define rm where "rm = RequestState_zero\<lparr>dataLoader := Some lm\<rparr>"
  have dl: "dataLoader rm = Some lm"
    by (simp add: rm_def)
  have held: "writer (cacheMutex lm)"
    by (simp add: lm_def)
  have seq: "uploads lm = [AddUpload_dump upload1]" and byid: "uploadsByID lm = Map.empty"
    by (simp_all add: lm_def)
  have mid: "AddUpload_midway NewUploadsDataLoader upload1 = Inr lm"
    unfolding lm_def by (rule AddUpload_midway_New)
  show ?thesis
    using mid held byid GetCacheUploads_takes_no_lock [OF dl held, of 1 "[]" upload1 0]
    unfolding seq unfolding rm_def lm_def by simp
qed

end
